theory Spec2Isabelle
  imports Complex_Main "HOL-Library.Multiset"
begin

section \<open>Python values used by the generators\<close>

text \<open>
  The repository holds two implementations of the same three generators:
  the library module \<^verbatim>\<open>password_generators.py\<close> (prefix \<open>lib_\<close> below) and the
  dashboard \<^verbatim>\<open>dasshboard.py\<close> (prefix \<open>dash_\<close>), which defines its own classes and
  the strength scorer. Every exception the code can raise is a value of \<open>py_error\<close>;
  a \<^verbatim>\<open>ValueError\<close> carries the message that identifies the raising statement.
\<close>

datatype message =
    NoCharacterTypesSelected
      \<comment> \<open>dashboard: "No character types selected!"\<close>
  | NotEnoughUniqueCharacters
      \<comment> \<open>dashboard: "Not enough unique characters for the requested length."\<close>
  | CannotGenerateUnique int nat
      \<comment> \<open>library: "Cannot generate password with {length} unique characters from a pool of {n} characters."\<close>
  | UnableSecurePin nat
      \<comment> \<open>library: "Unable to generate a secure PIN after {max_attempts} attempts. ..."\<close>
  | SampleLargerThanPopulation
      \<comment> \<open>\<^verbatim>\<open>random.sample\<close>: "Sample larger than population or is negative"\<close>

datatype py_error =
    ValueError message
  | IndexError
      \<comment> \<open>\<^verbatim>\<open>random.choice\<close> on an empty sequence\<close>

subsection \<open>The constants of the \<^verbatim>\<open>string\<close> module\<close>

definition ascii_uppercase :: string where
  "ascii_uppercase = ''ABCDEFGHIJKLMNOPQRSTUVWXYZ''"

definition ascii_lowercase :: string where
  "ascii_lowercase = ''abcdefghijklmnopqrstuvwxyz''"

definition digits :: string where
  "digits = ''0123456789''"

text \<open>
  The 32 characters of \<^verbatim>\<open>string.punctuation\<close>, in its order; the double quote,
  the apostrophe, the backslash and the backquote are written by code point.
\<close>

definition punctuation :: string where
  "punctuation =
     ''!'' @ [CHR 0x22] @ ''#$%&'' @ [CHR 0x27] @ ''()*+,-./:;<=>?@[''
     @ [CHR 0x5C] @ '']^_'' @ [CHR 0x60] @ ''{|}~''"

section \<open>The character pool of the random-password generator\<close>

record random_config =
  rc_length :: int
  include_upper :: bool
  include_lower :: bool
  include_digits :: bool
  include_symbols :: bool
  exclude_similar :: bool
  no_repeated :: bool

text \<open>
  One record serves both classes; it has the field names of the dashboard. The library
  calls the same parameters \<^verbatim>\<open>include_uppercase\<close>, \<^verbatim>\<open>include_lowercase\<close>,
  \<^verbatim>\<open>include_numbers\<close>, \<^verbatim>\<open>include_symbols\<close>, \<^verbatim>\<open>exclude_similar\<close> and
  \<^verbatim>\<open>no_repeated_characters\<close>. Lengths and counts are Python integers, so they are
  \<open>int\<close> and may be negative; \<^verbatim>\<open>range(n)\<close> then runs \<open>nat n\<close> times.

  The four \<^verbatim>\<open>if flag: chars += ...\<close> statements are the same in both files.
\<close>

definition class_chars :: "random_config \<Rightarrow> string" where
  "class_chars c =
     (if include_upper c then ascii_uppercase else [])
     @ (if include_lower c then ascii_lowercase else [])
     @ (if include_digits c then digits else [])
     @ (if include_symbols c then punctuation else [])"

text \<open>
  Library, \<^verbatim>\<open>__init__\<close>:
  \<^verbatim>\<open>"".join(char for char in self.characters if char not in "O0l1I")\<close>.
\<close>

definition lib_characters :: "random_config \<Rightarrow> string" where
  "lib_characters c =
     (let characters = class_chars c in
      if exclude_similar c
      then filter (\<lambda>char. char \<notin> set ''O0l1I'') characters
      else characters)"

text \<open>
  Dashboard, \<^verbatim>\<open>generate\<close>:
  \<^verbatim>\<open>for char in "Il1O0": chars = chars.replace(char, "")\<close>.
  \<open>replace_char\<close> is \<^verbatim>\<open>str.replace(char, "")\<close> for a one-character \<^verbatim>\<open>char\<close>.
\<close>

definition replace_char :: "char \<Rightarrow> string \<Rightarrow> string" where
  "replace_char char chars = filter (\<lambda>x. x \<noteq> char) chars"

definition dash_chars :: "random_config \<Rightarrow> string" where
  "dash_chars c =
     (let chars = class_chars c in
      if exclude_similar c
      then foldl (\<lambda>chars char. replace_char char chars) chars ''Il1O0''
      else chars)"

section \<open>The random source\<close>

text \<open>
  Python's \<^verbatim>\<open>random\<close> module is not part of the repository. A random source is
  modelled as the infinite sequence \<open>g\<close> of its raw draws together with the number
  \<open>pos\<close> of draws consumed so far; every function that draws returns the new position
  beside its result, also when it raises. \<open>randbelow g pos n\<close> is the index the next
  draw selects among \<open>n\<close> items. Since \<open>g\<close> is arbitrary, every sequence of indices
  the real generator can produce is covered.
\<close>

type_synonym rng = "nat \<Rightarrow> nat"

definition randbelow :: "rng \<Rightarrow> nat \<Rightarrow> nat \<Rightarrow> nat" where
  "randbelow g pos n = g pos mod n"

text \<open>\<^verbatim>\<open>random.choice(seq)\<close>: raises \<^verbatim>\<open>IndexError\<close> on an empty sequence.\<close>

definition choice :: "rng \<Rightarrow> nat \<Rightarrow> 'a list \<Rightarrow> (py_error + 'a) \<times> nat" where
  "choice g pos seq =
     (if seq = [] then (Inl IndexError, pos)
      else (Inr (seq ! randbelow g pos (length seq)), Suc pos))"

text \<open>
  The generator expression \<^verbatim>\<open>random.choice(seq) for _ in range(n)\<close>, consumed by
  \<^verbatim>\<open>''.join\<close> or a list comprehension: \<open>n\<close> draws in a row, stopping at the first
  exception.
\<close>

fun choice_each :: "rng \<Rightarrow> nat \<Rightarrow> 'a list \<Rightarrow> nat \<Rightarrow> (py_error + 'a list) \<times> nat" where
  "choice_each g pos seq 0 = (Inr [], pos)"
| "choice_each g pos seq (Suc n) =
     (case choice g pos seq of
        (Inl e, pos') \<Rightarrow> (Inl e, pos')
      | (Inr x, pos') \<Rightarrow>
          (case choice_each g pos' seq n of
             (Inl e, pos'') \<Rightarrow> (Inl e, pos'')
           | (Inr xs, pos'') \<Rightarrow> (Inr (x # xs), pos'')))"

text \<open>
  \<^verbatim>\<open>random.choices(population, k=k)\<close>: \<open>k\<close> independent draws with replacement
  (none when \<open>k \<le> 0\<close>), \<^verbatim>\<open>IndexError\<close> on an empty population.
\<close>

definition choices :: "rng \<Rightarrow> nat \<Rightarrow> 'a list \<Rightarrow> int \<Rightarrow> (py_error + 'a list) \<times> nat" where
  "choices g pos population k = choice_each g pos population (nat k)"

text \<open>
  \<^verbatim>\<open>random.sample(population, k)\<close>: raises \<^verbatim>\<open>ValueError\<close> unless
  \<open>0 \<le> k \<le> len(population)\<close>; otherwise returns the items at \<open>k\<close> pairwise different
  positions. The selection is modelled by the standard library's pool loop
  \<^verbatim>\<open>j = randbelow(n-i); result[i] = pool[j]; pool[j] = pool[n-i-1]\<close>,
  the pool shrinking by its last cell at each step. (For a large population the
  standard library draws positions until it finds an unused one instead; the items
  are at pairwise different positions either way, which is all the proofs use.)
\<close>

fun sample_pool :: "rng \<Rightarrow> nat \<Rightarrow> 'a list \<Rightarrow> nat \<Rightarrow> 'a list \<times> nat" where
  "sample_pool g pos pool 0 = ([], pos)"
| "sample_pool g pos pool (Suc k) =
     (let j = randbelow g pos (length pool);
          (rest, pos') = sample_pool g (Suc pos) (butlast (pool[j := last pool])) k
      in (pool ! j # rest, pos'))"

definition sample :: "rng \<Rightarrow> nat \<Rightarrow> 'a list \<Rightarrow> int \<Rightarrow> (py_error + 'a list) \<times> nat" where
  "sample g pos population k =
     (if \<not> (0 \<le> k \<and> k \<le> int (length population))
      then (Inl (ValueError SampleLargerThanPopulation), pos)
      else (let (xs, pos') = sample_pool g pos population (nat k) in (Inr xs, pos')))"

section \<open>The random-password generators\<close>

text \<open>
  Library, \<^verbatim>\<open>RandomPasswordGenerator.generate\<close>. There is no test for an empty pool.
\<close>

definition lib_random_generate :: "random_config \<Rightarrow> rng \<Rightarrow> nat \<Rightarrow> (py_error + string) \<times> nat" where
  "lib_random_generate c g pos =
     (let characters = lib_characters c in
      if no_repeated c then
        if rc_length c > int (length characters)
        then (Inl (ValueError (CannotGenerateUnique (rc_length c) (length characters))), pos)
        else sample g pos characters (rc_length c)
      else choice_each g pos characters (nat (rc_length c)))"

text \<open>Dashboard, \<^verbatim>\<open>RandomPasswordGenerator.generate\<close>.\<close>

definition dash_random_generate :: "random_config \<Rightarrow> rng \<Rightarrow> nat \<Rightarrow> (py_error + string) \<times> nat" where
  "dash_random_generate c g pos =
     (let chars = dash_chars c in
      if chars = [] then (Inl (ValueError NoCharacterTypesSelected), pos)
      else if no_repeated c \<and> int (length chars) < rc_length c
      then (Inl (ValueError NotEnoughUniqueCharacters), pos)
      else if no_repeated c then sample g pos chars (rc_length c)
      else choice_each g pos chars (nat (rc_length c)))"

section \<open>The memorable-password generators\<close>

text \<open>
  \<^verbatim>\<open>str.lower\<close> and \<^verbatim>\<open>str.capitalize\<close> on the ASCII letters; every other character is
  left as it is. (The claims about casing concern an ASCII vocabulary.)
\<close>

definition lower_char :: "char \<Rightarrow> char" where
  "lower_char c =
     (let n = (of_char c :: nat) in if 65 \<le> n \<and> n \<le> 90 then char_of (n + 32) else c)"

definition upper_char :: "char \<Rightarrow> char" where
  "upper_char c =
     (let n = (of_char c :: nat) in if 97 \<le> n \<and> n \<le> 122 then char_of (n - 32) else c)"

definition lower :: "string \<Rightarrow> string" where
  "lower w = map lower_char w"

fun capitalize :: "string \<Rightarrow> string" where
  "capitalize [] = []"
| "capitalize (c # cs) = upper_char c # map lower_char cs"

text \<open>\<^verbatim>\<open>separator.join(words)\<close>.\<close>

fun join :: "string \<Rightarrow> string list \<Rightarrow> string" where
  "join sep [] = []"
| "join sep [w] = w"
| "join sep (w # ws) = w @ sep @ join sep ws"

record memorable_config =
  no_of_words :: int
  separator :: string
  capitalization :: bool
  vocabulary :: "string list"
  suffix_length :: int

text \<open>
  The constructors. The library clamps the suffix length at 0; the dashboard replaces
  an empty vocabulary by three default words. (A vocabulary of \<^verbatim>\<open>None\<close> is loaded
  from the word corpus by the library; the model starts from the loaded list.)
\<close>

definition lib_memorable_init :: "memorable_config \<Rightarrow> memorable_config" where
  "lib_memorable_init c = c\<lparr>suffix_length := max 0 (suffix_length c)\<rparr>"

definition dash_memorable_init :: "memorable_config \<Rightarrow> memorable_config" where
  "dash_memorable_init c =
     c\<lparr>vocabulary :=
         (if vocabulary c = [] then [''apple'', ''banana'', ''cherry''] else vocabulary c)\<rparr>"

text \<open>
  Library, \<^verbatim>\<open>MemorablePasswordGenerator.generate\<close>: every word is an independent
  \<^verbatim>\<open>choice\<close> from the whole vocabulary; words are capitalized or left as they are.
\<close>

definition lib_memorable_generate ::
  "memorable_config \<Rightarrow> rng \<Rightarrow> nat \<Rightarrow> (py_error + string) \<times> nat" where
  "lib_memorable_generate c g pos =
     (case choice_each g pos (vocabulary c) (nat (no_of_words c)) of
        (Inl e, pos') \<Rightarrow> (Inl e, pos')
      | (Inr password_words, pos') \<Rightarrow>
          (let password_words =
                 (if capitalization c then map capitalize password_words else password_words);
               password = join (separator c) password_words
           in if suffix_length c > 0
              then (case choice_each g pos' digits (nat (suffix_length c)) of
                      (Inl e, pos'') \<Rightarrow> (Inl e, pos'')
                    | (Inr suffix, pos'') \<Rightarrow> (Inr (password @ suffix), pos''))
              else (Inr password, pos')))"

text \<open>
  Dashboard, \<^verbatim>\<open>MemorablePasswordGenerator.generate\<close>: the vocabulary is filtered to
  the words with \<open>3 < len(w) < 8\<close> (the whole vocabulary when none is left), and the
  words are a \<^verbatim>\<open>random.sample\<close> of it, without replacement.
\<close>

definition dash_filtered_vocab :: "memorable_config \<Rightarrow> string list" where
  "dash_filtered_vocab c =
     (let filtered_vocab = filter (\<lambda>w. 3 < length w \<and> length w < 8) (vocabulary c)
      in if filtered_vocab = [] then vocabulary c else filtered_vocab)"

definition dash_memorable_generate ::
  "memorable_config \<Rightarrow> rng \<Rightarrow> nat \<Rightarrow> (py_error + string) \<times> nat" where
  "dash_memorable_generate c g pos =
     (case sample g pos (dash_filtered_vocab c) (no_of_words c) of
        (Inl e, pos') \<Rightarrow> (Inl e, pos')
      | (Inr selected_words, pos') \<Rightarrow>
          (let selected_words =
                 (if capitalization c then map capitalize selected_words
                  else map lower selected_words);
               password = join (separator c) selected_words
           in if suffix_length c > 0
              then (case choices g pos' digits (suffix_length c) of
                      (Inl e, pos'') \<Rightarrow> (Inl e, pos'')
                    | (Inr suffix, pos'') \<Rightarrow> (Inr (password @ suffix), pos''))
              else (Inr password, pos')))"

section \<open>The PIN generators\<close>

definition blocked :: "string set" where
  "blocked = {''1234'', ''0000'', ''1111'', ''2580''}"

definition is_repeating :: "string \<Rightarrow> bool" where
  "is_repeating pin = (card (set pin) = 1)"

text \<open>\<^verbatim>\<open>int(c)\<close> for a decimal digit \<open>c\<close>.\<close>

definition int_of_digit :: "char \<Rightarrow> int" where
  "int_of_digit c = of_char c - 48"

definition is_sequential :: "string \<Rightarrow> bool" where
  "is_sequential pin =
     (if length pin < 2 then False
      else (let diffs = map (\<lambda>i. int_of_digit (pin ! (i + 1)) - int_of_digit (pin ! i))
                          [0 ..< length pin - 1]
            in list_all (\<lambda>d. d = 1) diffs \<or> list_all (\<lambda>d. d = - 1) diffs))"

definition max_attempts :: nat where
  "max_attempts = 1000"

text \<open>
  Library, \<^verbatim>\<open>PinCodeGenerator.generate\<close>: the \<^verbatim>\<open>for\<close> loop with \<open>n\<close> iterations left,
  then the \<^verbatim>\<open>raise\<close> after it.
\<close>

fun lib_pin_loop :: "int \<Rightarrow> rng \<Rightarrow> nat \<Rightarrow> nat \<Rightarrow> (py_error + string) \<times> nat" where
  "lib_pin_loop len g pos 0 = (Inl (ValueError (UnableSecurePin max_attempts)), pos)"
| "lib_pin_loop len g pos (Suc n) =
     (case choice_each g pos digits (nat len) of
        (Inl e, pos') \<Rightarrow> (Inl e, pos')
      | (Inr pin, pos') \<Rightarrow>
          if pin \<in> blocked then lib_pin_loop len g pos' n
          else if is_repeating pin then lib_pin_loop len g pos' n
          else if is_sequential pin then lib_pin_loop len g pos' n
          else (Inr pin, pos'))"

definition lib_pin_generate :: "int \<Rightarrow> rng \<Rightarrow> nat \<Rightarrow> (py_error + string) \<times> nat" where
  "lib_pin_generate len g pos = lib_pin_loop len g pos max_attempts"

text \<open>Dashboard, \<^verbatim>\<open>PinCodeGenerator.generate\<close>: one draw of \<open>len\<close> digits, no test.\<close>

definition dash_pin_generate :: "int \<Rightarrow> rng \<Rightarrow> nat \<Rightarrow> (py_error + string) \<times> nat" where
  "dash_pin_generate len g pos = choices g pos digits len"

section \<open>The strength scorer\<close>

text \<open>
  \<^verbatim>\<open>compute_strength\<close> of the dashboard classifies characters with Python's
  \<^verbatim>\<open>str.isupper\<close>, \<^verbatim>\<open>islower\<close>, \<^verbatim>\<open>isdigit\<close> and \<^verbatim>\<open>isalnum\<close>, which are defined on all
  of Unicode. The model takes the four predicates as a parameter, over any type of
  characters, so what is proved holds for Python's predicates on every string;
  \<open>ascii_methods\<close> is their restriction to ASCII, for evaluation.
\<close>

record 'c str_methods =
  isupper :: "'c \<Rightarrow> bool"
  islower :: "'c \<Rightarrow> bool"
  isdigit :: "'c \<Rightarrow> bool"
  isalnum :: "'c \<Rightarrow> bool"

definition ascii_methods :: "char str_methods" where
  "ascii_methods =
     \<lparr>isupper = (\<lambda>c. c \<in> set ascii_uppercase),
      islower = (\<lambda>c. c \<in> set ascii_lowercase),
      isdigit = (\<lambda>c. c \<in> set digits),
      isalnum = (\<lambda>c. c \<in> set (ascii_uppercase @ ascii_lowercase @ digits))\<rparr>"

text \<open>
  Python's \<^verbatim>\<open>round\<close> of a float to an integer rounds a tie to the even neighbour.
  The floats of \<^verbatim>\<open>compute_strength\<close> are multiples of \<open>1/2\<close> between 0 and 100, on
  which floating-point division, multiplication and addition are exact, so they are
  modelled as rationals.
\<close>

definition py_round :: "rat \<Rightarrow> int" where
  "py_round x =
     (let f = \<lfloor>x\<rfloor>; d = x - of_int f in
      if d < 1 / 2 then f
      else if d > 1 / 2 then f + 1
      else if even f then f else f + 1)"

definition compute_strength :: "'c str_methods \<Rightarrow> 'c list \<Rightarrow> int \<times> string" where
  "compute_strength m pw =
     (if pw = [] then (0, ''Weak'')
      else
        (let len = int (length pw);
             has_upper = list_ex (isupper m) pw;
             has_lower = list_ex (islower m) pw;
             has_digit = list_ex (isdigit m) pw;
             has_symbol = list_ex (\<lambda>c. \<not> isalnum m c) pw;
             length_score = (if len > 4 then of_int (min (len - 4) 16) / 16 * 40 else 0);
             classes = sum_list (map of_bool [has_upper, has_lower, has_digit, has_symbol]);
             diversity_score = (of_int classes / 4) * 40;
             bonus = (if has_digit \<and> has_symbol then 20
                      else (if has_digit \<or> has_symbol then 10 else 0));
             score = min 100 (py_round (length_score + diversity_score + of_int bonus));
             label = (if score < 40 then ''Weak''
                      else if score < 60 then ''Medium''
                      else if score < 80 then ''Strong''
                      else ''Very Strong'')
         in (score, label)))"

subsection \<open>The scorer as the specification words it\<close>

definition spec_length_score :: "nat \<Rightarrow> rat" where
  "spec_length_score n = (if n \<le> 4 then 0 else of_nat (min (n - 4) 16) / 16 * 40)"

definition spec_has_upper :: "'c str_methods \<Rightarrow> 'c list \<Rightarrow> bool" where
  "spec_has_upper m pw = (\<exists>c \<in> set pw. isupper m c)"

definition spec_has_lower :: "'c str_methods \<Rightarrow> 'c list \<Rightarrow> bool" where
  "spec_has_lower m pw = (\<exists>c \<in> set pw. islower m c)"

definition spec_has_digit :: "'c str_methods \<Rightarrow> 'c list \<Rightarrow> bool" where
  "spec_has_digit m pw = (\<exists>c \<in> set pw. isdigit m c)"

definition spec_has_symbol :: "'c str_methods \<Rightarrow> 'c list \<Rightarrow> bool" where
  "spec_has_symbol m pw = (\<exists>c \<in> set pw. \<not> isalnum m c)"

definition spec_classes :: "'c str_methods \<Rightarrow> 'c list \<Rightarrow> nat" where
  "spec_classes m pw =
     length (filter (\<lambda>b. b)
       [spec_has_upper m pw, spec_has_lower m pw, spec_has_digit m pw, spec_has_symbol m pw])"

definition spec_diversity_score :: "'c str_methods \<Rightarrow> 'c list \<Rightarrow> rat" where
  "spec_diversity_score m pw = of_nat (spec_classes m pw) / 4 * 40"

definition spec_bonus :: "'c str_methods \<Rightarrow> 'c list \<Rightarrow> rat" where
  "spec_bonus m pw =
     (if spec_has_digit m pw \<and> spec_has_symbol m pw then 20
      else if spec_has_digit m pw \<noteq> spec_has_symbol m pw then 10
      else 0)"

definition clamp :: "int \<Rightarrow> int \<Rightarrow> int \<Rightarrow> int" where
  "clamp lo hi x = max lo (min hi x)"

definition spec_score :: "'c str_methods \<Rightarrow> 'c list \<Rightarrow> int" where
  "spec_score m pw =
     clamp 0 100
       (py_round (spec_length_score (length pw) + spec_diversity_score m pw + spec_bonus m pw))"

definition spec_label :: "int \<Rightarrow> string" where
  "spec_label score =
     (if score < 40 then ''Weak''
      else if score < 60 then ''Medium''
      else if score < 80 then ''Strong''
      else ''Very Strong'')"

section \<open>Auxiliary notions for the proofs\<close>

text \<open>
  \<open>draws g pos seq n\<close> is the list of the \<open>n\<close> items that \<open>n\<close> successive
  \<^verbatim>\<open>random.choice(seq)\<close> calls select when the source stands at \<open>pos\<close>.
\<close>

definition draws :: "rng \<Rightarrow> nat \<Rightarrow> 'a list \<Rightarrow> nat \<Rightarrow> 'a list" where
  "draws g pos seq n = map (\<lambda>i. seq ! randbelow g (pos + i) (length seq)) [0 ..< n]"

text \<open>
  The rejection test of the library's PIN loop (its three \<^verbatim>\<open>continue\<close> branches), and
  the \<open>j\<close>-th candidate the loop draws when it starts at position \<open>pos\<close>.
\<close>

definition pin_rejected :: "string \<Rightarrow> bool" where
  "pin_rejected pin = (pin \<in> blocked \<or> is_repeating pin \<or> is_sequential pin)"

definition candidate :: "rng \<Rightarrow> nat \<Rightarrow> int \<Rightarrow> nat \<Rightarrow> string" where
  "candidate g pos len j = draws g (pos + j * nat len) digits (nat len)"

text \<open>Three concrete random sources, for evaluating the generators.\<close>

definition rng_count :: rng where
  "rng_count i = i"

definition rng_succ :: rng where
  "rng_succ i = i + 1"

definition rng_zero :: rng where
  "rng_zero i = 0"

section \<open>Facts about the random source\<close>

lemma draws_Suc:
  "draws g pos seq (Suc n) = seq ! randbelow g pos (length seq) # draws g (Suc pos) seq n"
  by (simp add: draws_def map_upt_Suc del: upt_Suc)

lemma choice_each_nonempty:
  "seq \<noteq> [] \<Longrightarrow> choice_each g pos seq n = (Inr (draws g pos seq n), pos + n)"
proof (induction n arbitrary: pos)
  case 0
  show ?case by (simp add: draws_def)
next
  case (Suc n)
  from Suc.prems have "choice g pos seq = (Inr (seq ! randbelow g pos (length seq)), Suc pos)"
    by (simp add: choice_def)
  with Suc.IH [OF Suc.prems, of "Suc pos"] show ?case
    by (simp add: draws_Suc)
qed

lemma choice_each_empty:
  "choice_each g pos [] n = (if n = 0 then (Inr [], pos) else (Inl IndexError, pos))"
  by (cases n) (simp_all add: choice_def)

lemma length_draws [simp]: "length (draws g pos seq n) = n"
  by (simp add: draws_def)

lemma set_draws: "seq \<noteq> [] \<Longrightarrow> set (draws g pos seq n) \<subseteq> set seq"
  by (auto simp: draws_def randbelow_def)

lemma mset_swap_out:
  assumes "j < length pool"
  shows "mset (pool ! j # butlast (pool[j := last pool])) = mset pool"
proof -
  let ?ys = "pool[j := last pool]"
  from assms have ne: "?ys \<noteq> []" by auto
  from assms have "pool \<noteq> []" by auto
  then have last: "last ?ys = last pool"
    by (simp add: last_list_update)
  from ne have "mset ?ys = add_mset (last ?ys) (mset (butlast ?ys))"
    by (metis append_butlast_last_id mset.simps(2) mset_append add_mset_add_single mset.simps(1) union_mset_add_mset_right add.right_neutral)
  moreover have "mset ?ys = add_mset (last pool) (mset pool - {#pool ! j#})"
    using assms by (rule mset_update)
  ultimately have "mset (butlast ?ys) = mset pool - {#pool ! j#}"
    by (simp add: last)
  with assms show ?thesis by simp
qed

lemma sample_pool_mset:
  "k \<le> length pool \<Longrightarrow> mset (fst (sample_pool g pos pool k)) \<subseteq># mset pool"
proof (induction k arbitrary: pos pool)
  case 0
  show ?case by simp
next
  case (Suc k)
  let ?j = "randbelow g pos (length pool)"
  let ?pool' = "butlast (pool[?j := last pool])"
  from Suc.prems have "0 < length pool" by (cases pool) simp_all
  then have j: "?j < length pool" unfolding randbelow_def by (rule mod_less_divisor)
  from Suc.prems have "k \<le> length ?pool'" by simp
  then have "mset (fst (sample_pool g (Suc pos) ?pool' k)) \<subseteq># mset ?pool'"
    by (rule Suc.IH)
  then have "add_mset (pool ! ?j) (mset (fst (sample_pool g (Suc pos) ?pool' k)))
               \<subseteq># mset (pool ! ?j # ?pool')"
    by (simp add: mset_subset_eq_add_mset_cancel)
  then show ?case
    unfolding mset_swap_out [OF j] by (simp add: Let_def case_prod_beta)
qed

lemma sample_pool_length_pos:
  "length (fst (sample_pool g pos pool k)) = k \<and> snd (sample_pool g pos pool k) = pos + k"
  by (induction k arbitrary: pos pool) (simp_all add: Let_def case_prod_beta)

lemma distinct_of_mset_subset:
  assumes "mset xs \<subseteq># mset ys" "distinct ys"
  shows "distinct xs"
proof -
  from assms(1) obtain R where "mset ys = mset xs + R"
    by (auto simp: mset_subset_eq_exists_conv)
  moreover obtain rs where "R = mset rs" by (metis ex_mset)
  ultimately have "mset ys = mset (xs @ rs)" by simp
  with assms(2) have "distinct (xs @ rs)" by (metis mset_eq_imp_distinct_iff)
  then show ?thesis by simp
qed

lemma sample_ok:
  assumes "0 \<le> k" "k \<le> int (length population)"
  shows "\<exists>xs. sample g pos population k = (Inr xs, pos + nat k) \<and> length xs = nat k
           \<and> mset xs \<subseteq># mset population"
proof -
  let ?r = "sample_pool g pos population (nat k)"
  from assms have "nat k \<le> length population" by simp
  then have "mset (fst ?r) \<subseteq># mset population" by (rule sample_pool_mset)
  moreover have "sample g pos population k = (Inr (fst ?r), snd ?r)"
    using assms by (simp add: sample_def split: prod.split)
  ultimately show ?thesis using sample_pool_length_pos [of g pos population "nat k"]
    by simp
qed

lemma distinct_all_classes:
  "distinct (ascii_uppercase @ ascii_lowercase @ digits @ punctuation)"
  by (simp add: ascii_uppercase_def ascii_lowercase_def digits_def punctuation_def)

lemma distinct_class_chars: "distinct (class_chars c)"
  using distinct_all_classes by (auto simp: class_chars_def)

section \<open>Facts about the pool\<close>

lemma length_string_constants:
  "length ascii_uppercase = 26" "length ascii_lowercase = 26"
  "length digits = 10" "length punctuation = 32"
  by (simp_all add: ascii_uppercase_def ascii_lowercase_def digits_def punctuation_def)

lemma foldl_replace_char:
  "foldl (\<lambda>chars char. replace_char char chars) chars sim
     = filter (\<lambda>x. x \<notin> set sim) chars"
proof (induction sim arbitrary: chars)
  case Nil
  show ?case by simp
next
  case (Cons a sim)
  have "filter (\<lambda>x. x \<notin> set sim) (replace_char a chars)
          = filter (\<lambda>x. x \<notin> set (a # sim)) chars"
    unfolding replace_char_def filter_filter
    by (rule filter_cong) auto
  with Cons.IH show ?case by simp
qed

lemma similar_sets_equal: "set ''Il1O0'' = set ''O0l1I''"
  by auto

lemma dash_chars_filter:
  "dash_chars c =
     (if exclude_similar c
      then filter (\<lambda>x. x \<notin> set ''Il1O0'') (class_chars c)
      else class_chars c)"
  by (simp add: dash_chars_def foldl_replace_char)

lemma lib_characters_filter:
  "lib_characters c =
     (if exclude_similar c
      then filter (\<lambda>x. x \<notin> set ''Il1O0'') (class_chars c)
      else class_chars c)"
  unfolding lib_characters_def Let_def similar_sets_equal ..

lemma dash_chars_eq_lib: "dash_chars c = lib_characters c"
  by (simp only: dash_chars_filter lib_characters_filter)

lemma class_chars_exclude_update [simp]:
  "class_chars (c\<lparr>exclude_similar := b\<rparr>) = class_chars c"
  by (simp add: class_chars_def)

section \<open>Claims about the character pool\<close>

text \<open>
  Claim C8. For every flag configuration, the pool built with \<open>exclude_similar\<close> set
  is the pool built without it from which every occurrence of the five characters
  \<open>I\<close>, \<open>l\<close>, \<open>1\<close>, \<open>O\<close>, \<open>0\<close> has been removed, the other characters staying in
  their order; so its set of characters is the old one minus those five. This holds
  for the pool of the library and for the pool of the dashboard. The pool of digits plus
  uppercase letters has 36 characters without the exclusion and 32 with it.
\<close>

theorem exclude_similar_removes_exactly:
  "lib_characters (c\<lparr>exclude_similar := True\<rparr>)
     = filter (\<lambda>x. x \<notin> {CHR ''I'', CHR ''l'', CHR ''1'', CHR ''O'', CHR ''0''})
         (lib_characters (c\<lparr>exclude_similar := False\<rparr>))
   \<and> dash_chars (c\<lparr>exclude_similar := True\<rparr>)
     = filter (\<lambda>x. x \<notin> {CHR ''I'', CHR ''l'', CHR ''1'', CHR ''O'', CHR ''0''})
         (dash_chars (c\<lparr>exclude_similar := False\<rparr>))
   \<and> set (lib_characters (c\<lparr>exclude_similar := True\<rparr>))
     = set (lib_characters (c\<lparr>exclude_similar := False\<rparr>))
         - {CHR ''I'', CHR ''l'', CHR ''1'', CHR ''O'', CHR ''0''}
   \<and> set (dash_chars (c\<lparr>exclude_similar := True\<rparr>))
     = set (dash_chars (c\<lparr>exclude_similar := False\<rparr>))
         - {CHR ''I'', CHR ''l'', CHR ''1'', CHR ''O'', CHR ''0''}
   \<and> length (lib_characters \<lparr>rc_length = n, include_upper = True, include_lower = False,
         include_digits = True, include_symbols = False,
         exclude_similar = False, no_repeated = r\<rparr>) = 36
   \<and> length (lib_characters \<lparr>rc_length = n, include_upper = True, include_lower = False,
         include_digits = True, include_symbols = False,
         exclude_similar = True, no_repeated = r\<rparr>) = 32
   \<and> length (dash_chars \<lparr>rc_length = n, include_upper = True, include_lower = False,
         include_digits = True, include_symbols = False,
         exclude_similar = False, no_repeated = r\<rparr>) = 36
   \<and> length (dash_chars \<lparr>rc_length = n, include_upper = True, include_lower = False,
         include_digits = True, include_symbols = False,
         exclude_similar = True, no_repeated = r\<rparr>) = 32"
proof -
  let ?sim = "{CHR ''I'', CHR ''l'', CHR ''1'', CHR ''O'', CHR ''0''}"
  let ?du = "\<lambda>b. \<lparr>rc_length = n, include_upper = True, include_lower = False,
         include_digits = True, include_symbols = False,
         exclude_similar = b, no_repeated = r\<rparr>"
  have sim: "set ''Il1O0'' = ?sim"
    by simp
  have lib: "lib_characters (c\<lparr>exclude_similar := True\<rparr>)
               = filter (\<lambda>x. x \<notin> ?sim) (class_chars c)"
            "lib_characters (c\<lparr>exclude_similar := False\<rparr>) = class_chars c"
    and dash: "dash_chars (c\<lparr>exclude_similar := True\<rparr>)
               = filter (\<lambda>x. x \<notin> ?sim) (class_chars c)"
            "dash_chars (c\<lparr>exclude_similar := False\<rparr>) = class_chars c" for c
    unfolding lib_characters_filter dash_chars_filter sim by simp_all
  have du: "class_chars (?du b) = ascii_uppercase @ digits" for b
    by (simp add: class_chars_def)
  have n36: "length (ascii_uppercase @ digits) = 36"
    by (simp add: length_string_constants)
  have n32: "length (filter (\<lambda>x. x \<notin> ?sim) (ascii_uppercase @ digits)) = 32"
    by (simp add: ascii_uppercase_def digits_def)
  have l36: "length (lib_characters (?du False)) = 36"
    and d36: "length (dash_chars (?du False)) = 36"
    using lib(2) [of "?du False"] dash(2) [of "?du False"] du [of False] n36 by simp_all
  have l32: "length (lib_characters (?du True)) = 32"
    and d32: "length (dash_chars (?du True)) = 32"
    using lib(1) [of "?du True"] dash(1) [of "?du True"] du [of True] n32 by simp_all
  have sets: "set (filter (\<lambda>x. x \<notin> ?sim) (class_chars c)) = set (class_chars c) - ?sim"
    by (simp only: set_filter) blast
  show ?thesis
    unfolding lib dash using l36 l32 d36 d32 sets by blast
qed

text \<open>
  Claim C10. For every combination of the four class flags and the exclusion flag, the
  pool string the dashboard builds inside \<open>generate\<close> is the pool string the library
  builds in its constructor, character for character.
\<close>

theorem dash_chars_eq_lib_characters:
  "dash_chars c = lib_characters c"
  by (simp only: dash_chars_filter lib_characters_filter)

section \<open>Facts about the random-password generators\<close>

lemma distinct_lib_characters: "distinct (lib_characters c)"
  by (simp add: lib_characters_filter distinct_class_chars)

lemma class_chars_empty_iff:
  "class_chars c = [] \<longleftrightarrow>
     \<not> include_upper c \<and> \<not> include_lower c \<and> \<not> include_digits c \<and> \<not> include_symbols c"
  by (simp add: class_chars_def ascii_uppercase_def ascii_lowercase_def digits_def
      punctuation_def)

lemma lib_characters_empty_iff:
  "lib_characters c = [] \<longleftrightarrow>
     \<not> include_upper c \<and> \<not> include_lower c \<and> \<not> include_digits c \<and> \<not> include_symbols c"
proof -
  have "filter (\<lambda>x. x \<notin> set ''Il1O0'') (class_chars c) = [] \<longleftrightarrow> class_chars c = []"
    by (simp add: class_chars_def ascii_uppercase_def ascii_lowercase_def digits_def
      punctuation_def)
  then show ?thesis
    by (simp add: lib_characters_filter class_chars_empty_iff)
qed

lemma sample_distinct:
  assumes "0 \<le> k" "k \<le> int (length population)" "distinct population"
  shows "\<exists>s. sample g pos population k = (Inr s, pos + nat k) \<and> length s = nat k
           \<and> distinct s \<and> set s \<subseteq> set population"
proof -
  from sample_ok [OF assms(1,2)] obtain xs where
    xs: "sample g pos population k = (Inr xs, pos + nat k)" "length xs = nat k"
        "mset xs \<subseteq># mset population"
    by blast
  from xs(3) assms(3) have "distinct xs" by (rule distinct_of_mset_subset)
  moreover from xs(3) have "set xs \<subseteq> set population"
    by (metis set_mset_mono set_mset_mset)
  ultimately show ?thesis using xs(1,2) by blast
qed

lemma dash_empty_pool_config_error:
  "dash_chars c = [] \<Longrightarrow>
     dash_random_generate c g pos = (Inl (ValueError NoCharacterTypesSelected), pos)"
  by (simp add: dash_random_generate_def)

lemma lib_empty_pool_behaviour:
  "lib_characters c = [] \<Longrightarrow>
     lib_random_generate c g pos =
       (if no_repeated c
        then (if 0 < rc_length c then Inl (ValueError (CannotGenerateUnique (rc_length c) 0))
              else if rc_length c = 0 then Inr []
              else Inl (ValueError SampleLargerThanPopulation))
        else (if 0 < rc_length c then Inl IndexError else Inr []),
        pos)"
  by (simp add: lib_random_generate_def sample_def choice_each_empty)

section \<open>Claims about the random-password generators\<close>

text \<open>
  Claim C3, as amended. For every random-password configuration with \<open>no_repeated\<close>
  set and a length that is not negative:
  in the library, a length of at most the pool size gives a string of exactly that
  length in which no character occurs twice, each character from the pool, and a
  length above the pool size raises the library's insufficient-pool \<^verbatim>\<open>ValueError\<close>;
  in the dashboard the same holds whenever the pool is not empty (with the dashboard's
  "Not enough unique characters" \<^verbatim>\<open>ValueError\<close>), and an empty pool raises
  "No character types selected!" instead, whatever the length.
\<close>

theorem no_repeat_generate:
  assumes "no_repeated c" and "0 \<le> rc_length c"
  shows
    "(rc_length c \<le> int (length (lib_characters c)) \<longrightarrow>
        (\<exists>s. lib_random_generate c g pos = (Inr s, pos + nat (rc_length c))
           \<and> int (length s) = rc_length c \<and> distinct s \<and> set s \<subseteq> set (lib_characters c)))
   \<and> (int (length (lib_characters c)) < rc_length c \<longrightarrow>
        lib_random_generate c g pos =
          (Inl (ValueError (CannotGenerateUnique (rc_length c) (length (lib_characters c)))), pos))
   \<and> (dash_chars c \<noteq> [] \<and> rc_length c \<le> int (length (dash_chars c)) \<longrightarrow>
        (\<exists>s. dash_random_generate c g pos = (Inr s, pos + nat (rc_length c))
           \<and> int (length s) = rc_length c \<and> distinct s \<and> set s \<subseteq> set (dash_chars c)))
   \<and> (dash_chars c \<noteq> [] \<and> int (length (dash_chars c)) < rc_length c \<longrightarrow>
        dash_random_generate c g pos = (Inl (ValueError NotEnoughUniqueCharacters), pos))
   \<and> (dash_chars c = [] \<longrightarrow>
        dash_random_generate c g pos = (Inl (ValueError NoCharacterTypesSelected), pos))"
proof -
  have lib_ok: "\<exists>s. lib_random_generate c g pos = (Inr s, pos + nat (rc_length c))
           \<and> int (length s) = rc_length c \<and> distinct s \<and> set s \<subseteq> set (lib_characters c)"
    if le: "rc_length c \<le> int (length (lib_characters c))"
  proof -
    from sample_distinct [OF assms(2) le distinct_lib_characters, of g pos]
    obtain s where s: "sample g pos (lib_characters c) (rc_length c) = (Inr s, pos + nat (rc_length c))"
      "length s = nat (rc_length c)" "distinct s" "set s \<subseteq> set (lib_characters c)"
      by blast
    from le assms(1) have "lib_random_generate c g pos = sample g pos (lib_characters c) (rc_length c)"
      by (simp add: lib_random_generate_def)
    with s assms(2) show ?thesis by simp
  qed
  have lib_err: "lib_random_generate c g pos =
          (Inl (ValueError (CannotGenerateUnique (rc_length c) (length (lib_characters c)))), pos)"
    if "int (length (lib_characters c)) < rc_length c"
    using that assms(1) by (simp add: lib_random_generate_def)
  have dash_ok: "\<exists>s. dash_random_generate c g pos = (Inr s, pos + nat (rc_length c))
           \<and> int (length s) = rc_length c \<and> distinct s \<and> set s \<subseteq> set (dash_chars c)"
    if ne: "dash_chars c \<noteq> []" and le: "rc_length c \<le> int (length (dash_chars c))"
  proof -
    have d: "distinct (dash_chars c)"
      by (simp add: dash_chars_eq_lib distinct_lib_characters)
    from sample_distinct [OF assms(2) le d, of g pos]
    obtain s where s: "sample g pos (dash_chars c) (rc_length c) = (Inr s, pos + nat (rc_length c))"
      "length s = nat (rc_length c)" "distinct s" "set s \<subseteq> set (dash_chars c)"
      by blast
    from ne le assms(1) have "dash_random_generate c g pos = sample g pos (dash_chars c) (rc_length c)"
      by (simp add: dash_random_generate_def)
    with s assms(2) show ?thesis by simp
  qed
  have dash_err: "dash_random_generate c g pos = (Inl (ValueError NotEnoughUniqueCharacters), pos)"
    if "dash_chars c \<noteq> []" "int (length (dash_chars c)) < rc_length c"
    using that assms(1) by (simp add: dash_random_generate_def)
  from lib_ok lib_err dash_ok dash_err dash_empty_pool_config_error [of c g pos]
  show ?thesis by blast
qed

text \<open>
  The theorem at three configurations: uppercase only with length 8 (a string is
  returned), digits only with length 11 (the pool of 10 is too small), and no class
  at all with length 8 (the dashboard's empty-pool error).
\<close>

theorem no_repeat_generate_witness:
  "(\<exists>s. lib_random_generate \<lparr>rc_length = 8, include_upper = True, include_lower = False,
       include_digits = False, include_symbols = False, exclude_similar = False,
       no_repeated = True\<rparr> rng_count 0 = (Inr s, 8)
       \<and> length s = 8 \<and> distinct s \<and> set s \<subseteq> set ascii_uppercase)
   \<and> (\<exists>s. dash_random_generate \<lparr>rc_length = 8, include_upper = True, include_lower = False,
       include_digits = False, include_symbols = False, exclude_similar = False,
       no_repeated = True\<rparr> rng_count 0 = (Inr s, 8)
       \<and> length s = 8 \<and> distinct s \<and> set s \<subseteq> set ascii_uppercase)
   \<and> lib_random_generate \<lparr>rc_length = 11, include_upper = False, include_lower = False,
       include_digits = True, include_symbols = False, exclude_similar = False,
       no_repeated = True\<rparr> rng_count 0
       = (Inl (ValueError (CannotGenerateUnique 11 10)), 0)
   \<and> dash_random_generate \<lparr>rc_length = 11, include_upper = False, include_lower = False,
       include_digits = True, include_symbols = False, exclude_similar = False,
       no_repeated = True\<rparr> rng_count 0
       = (Inl (ValueError NotEnoughUniqueCharacters), 0)
   \<and> dash_random_generate \<lparr>rc_length = 8, include_upper = False, include_lower = False,
       include_digits = False, include_symbols = False, exclude_similar = False,
       no_repeated = True\<rparr> rng_count 0
       = (Inl (ValueError NoCharacterTypesSelected), 0)"
proof -
  let ?c1 = "\<lparr>rc_length = 8, include_upper = True, include_lower = False,
       include_digits = False, include_symbols = False, exclude_similar = False,
       no_repeated = True\<rparr>"
  let ?c2 = "\<lparr>rc_length = 11, include_upper = False, include_lower = False,
       include_digits = True, include_symbols = False, exclude_similar = False,
       no_repeated = True\<rparr>"
  let ?c3 = "\<lparr>rc_length = 8, include_upper = False, include_lower = False,
       include_digits = False, include_symbols = False, exclude_similar = False,
       no_repeated = True\<rparr>"
  have p1: "lib_characters ?c1 = ascii_uppercase" "dash_chars ?c1 = ascii_uppercase"
    and p2: "lib_characters ?c2 = digits" "dash_chars ?c2 = digits"
    and p3: "dash_chars ?c3 = []"
    by (simp_all add: lib_characters_filter dash_chars_filter class_chars_def)
  have n: "length ascii_uppercase = 26" "length digits = 10"
    "ascii_uppercase \<noteq> []" "digits \<noteq> []"
    by (simp_all add: ascii_uppercase_def digits_def)
  show ?thesis
    using no_repeat_generate [of ?c1 rng_count 0] no_repeat_generate [of ?c2 rng_count 0]
      no_repeat_generate [of ?c3 rng_count 0]
    unfolding p1 p2 p3 by (simp add: n)
qed

text \<open>
  Where the claim as first stated fails: with no class enabled, \<open>no_repeated\<close> set and
  length 8, the length exceeds the pool size 0, and the dashboard raises
  "No character types selected!", which is not the insufficient-pool error.
\<close>

theorem no_repeat_empty_pool_counterexample:
  "no_repeated \<lparr>rc_length = 8, include_upper = False, include_lower = False,
       include_digits = False, include_symbols = False, exclude_similar = False,
       no_repeated = True\<rparr>
   \<and> int (length (dash_chars \<lparr>rc_length = 8, include_upper = False, include_lower = False,
       include_digits = False, include_symbols = False, exclude_similar = False,
       no_repeated = True\<rparr>))
       < rc_length \<lparr>rc_length = 8, include_upper = False, include_lower = False,
       include_digits = False, include_symbols = False, exclude_similar = False,
       no_repeated = True\<rparr>
   \<and> dash_random_generate \<lparr>rc_length = 8, include_upper = False, include_lower = False,
       include_digits = False, include_symbols = False, exclude_similar = False,
       no_repeated = True\<rparr> rng_count 0
       = (Inl (ValueError NoCharacterTypesSelected), 0)
   \<and> fst (dash_random_generate \<lparr>rc_length = 8, include_upper = False, include_lower = False,
       include_digits = False, include_symbols = False, exclude_similar = False,
       no_repeated = True\<rparr> rng_count 0)
       \<noteq> Inl (ValueError NotEnoughUniqueCharacters)"
  by (simp add: dash_random_generate_def dash_chars_def class_chars_def)

text \<open>
  Claim C4 fails on the library: its \<open>generate\<close> has no test for an empty pool. With
  no class enabled and length 8 the pool is empty and \<^verbatim>\<open>random.choice\<close> raises
  \<^verbatim>\<open>IndexError\<close>, for every random source. (The dashboard raises
  "No character types selected!" on every empty pool, by \<open>dash_empty_pool_config_error\<close>;
  what the library does on an empty pool is \<open>lib_empty_pool_behaviour\<close>.)
\<close>

theorem lib_empty_pool_index_error:
  "lib_characters \<lparr>rc_length = 8, include_upper = False, include_lower = False,
       include_digits = False, include_symbols = False, exclude_similar = False,
       no_repeated = False\<rparr> = []
   \<and> lib_random_generate \<lparr>rc_length = 8, include_upper = False, include_lower = False,
       include_digits = False, include_symbols = False, exclude_similar = False,
       no_repeated = False\<rparr> g pos = (Inl IndexError, pos)"
  by (simp add: lib_random_generate_def lib_characters_def class_chars_def choice_each_empty)

section \<open>Facts about the PIN generators\<close>

lemma digits_nonempty: "digits \<noteq> []"
  by (simp add: digits_def)

lemma lib_pin_loop_Suc:
  "lib_pin_loop len g pos (Suc n) =
     (if pin_rejected (draws g pos digits (nat len))
      then lib_pin_loop len g (pos + nat len) n
      else (Inr (draws g pos digits (nat len)), pos + nat len))"
  by (simp add: choice_each_nonempty [OF digits_nonempty] pin_rejected_def)

lemma candidate_0: "candidate g pos len 0 = draws g pos digits (nat len)"
  by (simp add: candidate_def)

lemma candidate_Suc: "candidate g pos len (Suc j) = candidate g (pos + nat len) len j"
  by (simp add: candidate_def add.assoc)

lemma length_candidate: "0 \<le> len \<Longrightarrow> int (length (candidate g pos len j)) = len"
  by (simp add: candidate_def)

lemma set_candidate: "set (candidate g pos len j) \<subseteq> set digits"
  unfolding candidate_def by (rule set_draws [OF digits_nonempty])

lemma lib_pin_loop_fails:
  "lib_pin_loop len g pos n = (Inl e, pos') \<Longrightarrow>
     e = ValueError (UnableSecurePin max_attempts) \<and> pos' = pos + n * nat len
     \<and> (\<forall>j<n. pin_rejected (candidate g pos len j))"
proof (induction n arbitrary: pos)
  case 0
  then show ?case by simp
next
  case (Suc n)
  show ?case
  proof (cases "pin_rejected (draws g pos digits (nat len))")
    case True
    with Suc.prems have "lib_pin_loop len g (pos + nat len) n = (Inl e, pos')"
      by (simp add: lib_pin_loop_Suc del: lib_pin_loop.simps)
    from Suc.IH [OF this] True show ?thesis
      by (auto simp: less_Suc_eq_0_disj candidate_0 candidate_Suc)
  next
    case False
    with Suc.prems show ?thesis by (simp add: lib_pin_loop_Suc del: lib_pin_loop.simps)
  qed
qed

lemma lib_pin_loop_returns:
  "lib_pin_loop len g pos n = (Inr pin, pos') \<Longrightarrow>
     \<exists>k<n. pos' = pos + Suc k * nat len \<and> pin = candidate g pos len k
       \<and> \<not> pin_rejected pin \<and> (\<forall>j<k. pin_rejected (candidate g pos len j))"
proof (induction n arbitrary: pos)
  case 0
  then show ?case by simp
next
  case (Suc n)
  show ?case
  proof (cases "pin_rejected (draws g pos digits (nat len))")
    case True
    with Suc.prems have "lib_pin_loop len g (pos + nat len) n = (Inr pin, pos')"
      by (simp add: lib_pin_loop_Suc del: lib_pin_loop.simps)
    from Suc.IH [OF this] obtain k where k: "k < n"
      "pos' = pos + nat len + Suc k * nat len" "pin = candidate g (pos + nat len) len k"
      "\<not> pin_rejected pin" "\<forall>j<k. pin_rejected (candidate g (pos + nat len) len j)"
      by blast
    have "\<forall>j<Suc k. pin_rejected (candidate g pos len j)"
      using True k(5) by (auto simp: less_Suc_eq_0_disj candidate_0 candidate_Suc)
    with k(1-4) show ?thesis
      by (intro exI [of _ "Suc k"]) (simp add: candidate_Suc)
  next
    case False
    with Suc.prems have "pin = draws g pos digits (nat len)" "pos' = pos + nat len"
      by (simp_all add: lib_pin_loop_Suc del: lib_pin_loop.simps)
    with False show ?thesis
      by (intro exI [of _ 0]) (simp add: candidate_0)
  qed
qed

lemma dash_pin_generate_eq:
  "dash_pin_generate len g pos = (Inr (candidate g pos len 0), pos + nat len)"
  by (simp add: dash_pin_generate_def choices_def choice_each_nonempty [OF digits_nonempty]
      candidate_0)

lemma lib_pin_rng_count: "lib_pin_generate 4 rng_count 0 = (Inr ''8901'', 12)"
  by code_simp

lemma lib_pin_loop_length_1:
  "lib_pin_loop 1 g pos n = (Inl (ValueError (UnableSecurePin max_attempts)), pos + n)"
proof (induction n arbitrary: pos)
  case 0
  show ?case by simp
next
  case (Suc n)
  have "is_repeating (draws g pos digits (nat 1))"
    by (simp add: is_repeating_def draws_def)
  then show ?case
    by (simp add: lib_pin_loop_Suc pin_rejected_def Suc.IH del: lib_pin_loop.simps)
qed

lemma lib_pin_returns_safe:
  "lib_pin_generate len g pos = (Inr pin, pos') \<Longrightarrow>
     pin \<notin> blocked \<and> \<not> is_repeating pin \<and> \<not> is_sequential pin"
  unfolding lib_pin_generate_def
  by (drule lib_pin_loop_returns) (auto simp: pin_rejected_def)

lemma is_repeating_iff:
  "is_repeating pin \<longleftrightarrow> pin \<noteq> [] \<and> (\<forall>c \<in> set pin. c = hd pin)"
proof
  assume "is_repeating pin"
  then obtain x where x: "set pin = {x}"
    by (auto simp: is_repeating_def card_1_singleton_iff)
  then have "pin \<noteq> []" by auto
  then have "hd pin \<in> set pin" by simp
  with x show "pin \<noteq> [] \<and> (\<forall>c \<in> set pin. c = hd pin)" by auto
next
  assume a: "pin \<noteq> [] \<and> (\<forall>c \<in> set pin. c = hd pin)"
  then have "set pin = {hd pin}" by (cases pin) auto
  then show "is_repeating pin" by (simp add: is_repeating_def)
qed

lemma is_sequential_iff:
  "is_sequential pin \<longleftrightarrow>
     2 \<le> length pin
     \<and> ((\<forall>i. Suc i < length pin \<longrightarrow> int_of_digit (pin ! Suc i) = int_of_digit (pin ! i) + 1)
        \<or> (\<forall>i. Suc i < length pin \<longrightarrow> int_of_digit (pin ! Suc i) = int_of_digit (pin ! i) - 1))"
proof -
  have i: "Suc i < length pin \<longleftrightarrow> i < length pin - 1" for i by auto
  have up: "a - b = 1 \<longleftrightarrow> a = b + 1" and down: "a - b = - 1 \<longleftrightarrow> a = b - 1" for a b :: int
    by auto
  show ?thesis
    by (auto simp: is_sequential_def Let_def list_all_iff i up down)
qed

section \<open>Claims about the PIN generators\<close>

text \<open>
  Claim C7. For every PIN configuration (of a length that is not negative), the
  library's \<open>generate\<close> either returns a string of exactly \<open>len\<close> decimal digits,
  which is the first candidate that passes the rejection test, drawn as candidate
  number \<open>k + 1\<close> with \<open>k < 1000\<close>, or it raises the exhaustion error after exactly
  1000 candidates, all of them rejected; the random source has then advanced by at
  most \<open>1000 * len\<close> digit draws, so a 1001st candidate is never drawn. The
  dashboard's \<open>generate\<close> always returns a string of exactly \<open>len\<close> decimal digits after
  one candidate.
\<close>

theorem pin_generate_bounded:
  assumes "0 \<le> len"
  shows "(case lib_pin_generate len g pos of
            (Inr pin, pos') \<Rightarrow>
              int (length pin) = len \<and> set pin \<subseteq> set digits
              \<and> (\<exists>k<1000. pos' = pos + Suc k * nat len \<and> pin = candidate g pos len k
                    \<and> \<not> pin_rejected pin \<and> (\<forall>j<k. pin_rejected (candidate g pos len j)))
          | (Inl e, pos') \<Rightarrow>
              e = ValueError (UnableSecurePin 1000) \<and> pos' = pos + 1000 * nat len
              \<and> (\<forall>j<1000. pin_rejected (candidate g pos len j)))
       \<and> (\<exists>pin. dash_pin_generate len g pos = (Inr pin, pos + nat len)
              \<and> int (length pin) = len \<and> set pin \<subseteq> set digits)"
proof -
  have lib: "case lib_pin_generate len g pos of
            (Inr pin, pos') \<Rightarrow>
              int (length pin) = len \<and> set pin \<subseteq> set digits
              \<and> (\<exists>k<1000. pos' = pos + Suc k * nat len \<and> pin = candidate g pos len k
                    \<and> \<not> pin_rejected pin \<and> (\<forall>j<k. pin_rejected (candidate g pos len j)))
          | (Inl e, pos') \<Rightarrow>
              e = ValueError (UnableSecurePin 1000) \<and> pos' = pos + 1000 * nat len
              \<and> (\<forall>j<1000. pin_rejected (candidate g pos len j))"
  proof (cases "lib_pin_generate len g pos")
    case (Pair r pos')
    show ?thesis
    proof (cases r)
      case (Inl e)
      with Pair have "lib_pin_loop len g pos max_attempts = (Inl e, pos')"
        by (simp add: lib_pin_generate_def)
      from lib_pin_loop_fails [OF this] show ?thesis
        unfolding Pair Inl by (simp add: max_attempts_def)
    next
      case (Inr pin)
      with Pair have "lib_pin_loop len g pos max_attempts = (Inr pin, pos')"
        by (simp add: lib_pin_generate_def)
      from lib_pin_loop_returns [OF this] obtain k where k: "k < 1000"
        "pos' = pos + Suc k * nat len" "pin = candidate g pos len k"
        "\<not> pin_rejected pin" "\<forall>j<k. pin_rejected (candidate g pos len j)"
        unfolding max_attempts_def by blast
      from k(3) assms have "int (length pin) = len" "set pin \<subseteq> set digits"
        by (simp_all add: length_candidate set_candidate)
      with k show ?thesis
        unfolding Pair Inr by auto
    qed
  qed
  have dash: "\<exists>pin. dash_pin_generate len g pos = (Inr pin, pos + nat len)
              \<and> int (length pin) = len \<and> set pin \<subseteq> set digits"
    using assms by (simp add: dash_pin_generate_eq length_candidate set_candidate)
  from lib dash show ?thesis ..
qed

text \<open>
  The theorem at length 4 with the source that counts 0, 1, 2, ...: the candidates
  "0123" and "4567" are rejected and the third one, "8901", is returned.
\<close>

theorem pin_generate_bounded_witness:
  "(0::int) \<le> 4
   \<and> lib_pin_generate 4 rng_count 0 = (Inr ''8901'', 12)
   \<and> (\<exists>k<1000. (12::nat) = 0 + Suc k * nat 4 \<and> ''8901'' = candidate rng_count 0 4 k
         \<and> \<not> pin_rejected ''8901'' \<and> (\<forall>j<k. pin_rejected (candidate rng_count 0 4 j)))
   \<and> (\<exists>pin. dash_pin_generate 4 rng_count 0 = (Inr pin, 0 + nat 4)
              \<and> int (length pin) = 4 \<and> set pin \<subseteq> set digits)"
proof -
  have h: "(0::int) \<le> 4" by simp
  note t = pin_generate_bounded [OF h, where g = rng_count and pos = 0,
      unfolded lib_pin_rng_count prod.case sum.case]
  from h t lib_pin_rng_count show ?thesis by blast
qed

text \<open>
  Claim C9. The library's PIN generator of length 1 never returns a value: a one-digit
  candidate always passes the repeating test \<open>len(set(pin)) == 1\<close>, so all 1000
  attempts are rejected and the call raises the exhaustion error, for every random
  source.
\<close>

theorem lib_pin_length_1_never_returns:
  "is_repeating [d]
   \<and> lib_pin_generate 1 g pos = (Inl (ValueError (UnableSecurePin 1000)), pos + 1000)"
  by (simp add: is_repeating_def lib_pin_generate_def lib_pin_loop_length_1 max_attempts_def)

text \<open>
  Claim C1 fails on the dashboard: its PIN generator returns the digits it draws
  without any test. When the source draws 1, 2, 3, 4 it returns "1234", which is in the
  blocked set and is an ascending run; when it draws 0 four times it returns "0000",
  which is blocked and a single repeated digit. (The library's generator never returns
  such a value, by \<open>lib_pin_returns_safe\<close>; \<open>is_repeating_iff\<close> and \<open>is_sequential_iff\<close>
  say what its two tests mean.)
\<close>

theorem dash_pin_returns_blocked:
  "dash_pin_generate 4 rng_succ 0 = (Inr ''1234'', 4)
   \<and> ''1234'' \<in> blocked \<and> is_sequential ''1234''
   \<and> dash_pin_generate 4 rng_zero 0 = (Inr ''0000'', 4)
   \<and> ''0000'' \<in> blocked \<and> is_repeating ''0000''"
  by code_simp

section \<open>Facts about the memorable-password generators\<close>

lemma draws_4:
  "draws g pos seq 4 =
     [seq ! randbelow g pos (length seq), seq ! randbelow g (pos + 1) (length seq),
      seq ! randbelow g (pos + 2) (length seq), seq ! randbelow g (pos + 3) (length seq)]"
  by (simp add: draws_def upt_rec numeral_eq_Suc)

lemma draws_2:
  "draws g pos seq 2 =
     [seq ! randbelow g pos (length seq), seq ! randbelow g (pos + 1) (length seq)]"
  by (simp add: draws_def upt_rec numeral_eq_Suc)

lemma nth_randbelow_mem: "seq \<noteq> [] \<Longrightarrow> seq ! randbelow g pos (length seq) \<in> set seq"
  by (simp add: randbelow_def)

lemma capitalize_examples:
  "capitalize ''apple'' = ''Apple''" "capitalize ''banana'' = ''Banana''"
  "capitalize ''kiwi'' = ''Kiwi''" "capitalize ''kIWI'' = ''Kiwi''"
  "lower ''KiWi'' = ''kiwi''"
  by code_simp+

lemma capitalize_fruit:
  "w \<in> set [''apple'', ''banana'', ''kiwi''] \<Longrightarrow>
     capitalize w \<in> set [''Apple'', ''Banana'', ''Kiwi'']"
  using capitalize_examples(1-3) by auto

lemma dash_filtered_vocab_spec:
  "dash_filtered_vocab c =
     (if \<exists>w \<in> set (vocabulary c). 4 \<le> length w \<and> length w \<le> 7
      then filter (\<lambda>w. 4 \<le> length w \<and> length w \<le> 7) (vocabulary c)
      else vocabulary c)"
proof -
  have "(3 < length w \<and> length w < 8) = (4 \<le> length w \<and> length w \<le> 7)" for w :: string
    by auto
  then show ?thesis
    by (auto simp: dash_filtered_vocab_def Let_def filter_empty_conv)
qed

lemma dash_memorable_words:
  assumes "dash_memorable_generate c g pos = (Inr s, pos')"
  shows "\<exists>ws suffix. mset ws \<subseteq># mset (dash_filtered_vocab c)
           \<and> int (length ws) = no_of_words c
           \<and> set suffix \<subseteq> set digits
           \<and> s = join (separator c)
                   (map (if capitalization c then capitalize else lower) ws) @ suffix"
proof -
  let ?fv = "dash_filtered_vocab c"
  from assms have k: "0 \<le> no_of_words c" "no_of_words c \<le> int (length ?fv)"
    by (auto simp: dash_memorable_generate_def sample_def split: if_splits)
  from sample_ok [OF k, of g pos] obtain ws where ws:
    "sample g pos ?fv (no_of_words c) = (Inr ws, pos + nat (no_of_words c))"
    "length ws = nat (no_of_words c)" "mset ws \<subseteq># mset ?fv"
    by blast
  let ?p = "join (separator c) (map (if capitalization c then capitalize else lower) ws)"
  let ?suffix = "if suffix_length c > 0
                 then draws g (pos + nat (no_of_words c)) digits (nat (suffix_length c)) else []"
  have "s = ?p @ ?suffix"
    using assms unfolding dash_memorable_generate_def ws(1)
    by (auto simp: choices_def choice_each_nonempty [OF digits_nonempty] split: if_splits)
  moreover have "set ?suffix \<subseteq> set digits"
    using set_draws [OF digits_nonempty] by auto
  ultimately show ?thesis using ws(2,3) k(1) by (intro exI [of _ ws] exI [of _ ?suffix]) simp
qed

section \<open>Claims about the memorable-password generators\<close>

text \<open>
  Claim C5, as amended. For the configuration of four words, separator "-",
  capitalization, vocabulary apple, banana, kiwi and a suffix of length 2:
  every call of the library's \<open>generate\<close>, which chooses its words with replacement,
  returns four words joined by "-" and followed directly by exactly two decimal
  digits, each word being one of Apple, Banana, Kiwi, the capitalized words of the
  vocabulary (which the length filter leaves whole); every call of the dashboard's
  \<open>generate\<close>, which samples its words without replacement from the three filtered
  words, raises the \<^verbatim>\<open>ValueError\<close> of \<^verbatim>\<open>random.sample\<close>, four being more than three.
\<close>

theorem memorable_fruit_pattern:
  "(\<exists>w1 w2 w3 w4 d1 d2.
      lib_memorable_generate
        (lib_memorable_init
          \<lparr>no_of_words = 4, separator = ''-'', capitalization = True,
           vocabulary = [''apple'', ''banana'', ''kiwi''], suffix_length = 2\<rparr>) g pos
        = (Inr (w1 @ ''-'' @ w2 @ ''-'' @ w3 @ ''-'' @ w4 @ [d1, d2]), pos + 6)
      \<and> w1 \<in> set [''Apple'', ''Banana'', ''Kiwi'']
      \<and> w2 \<in> set [''Apple'', ''Banana'', ''Kiwi'']
      \<and> w3 \<in> set [''Apple'', ''Banana'', ''Kiwi'']
      \<and> w4 \<in> set [''Apple'', ''Banana'', ''Kiwi'']
      \<and> d1 \<in> set digits \<and> d2 \<in> set digits)
   \<and> dash_filtered_vocab
        (dash_memorable_init
          \<lparr>no_of_words = 4, separator = ''-'', capitalization = True,
           vocabulary = [''apple'', ''banana'', ''kiwi''], suffix_length = 2\<rparr>)
        = [''apple'', ''banana'', ''kiwi'']
   \<and> dash_memorable_generate
        (dash_memorable_init
          \<lparr>no_of_words = 4, separator = ''-'', capitalization = True,
           vocabulary = [''apple'', ''banana'', ''kiwi''], suffix_length = 2\<rparr>) g pos
        = (Inl (ValueError SampleLargerThanPopulation), pos)"
proof -
  let ?v = "[''apple'', ''banana'', ''kiwi'']"
  let ?c = "\<lparr>no_of_words = 4, separator = ''-'', capitalization = True,
           vocabulary = ?v, suffix_length = 2\<rparr>"
  let ?w = "\<lambda>i. capitalize (?v ! randbelow g (pos + i) (length ?v))"
  let ?d = "\<lambda>i. digits ! randbelow g (pos + 4 + i) (length digits)"
  have v: "?v \<noteq> []" by simp
  have w: "?w i \<in> set [''Apple'', ''Banana'', ''Kiwi'']" for i
    by (rule capitalize_fruit, rule nth_randbelow_mem, rule v)
  have d: "?d i \<in> set digits" for i
    by (rule nth_randbelow_mem, rule digits_nonempty)
  have "lib_memorable_generate (lib_memorable_init ?c) g pos
          = (Inr (?w 0 @ ''-'' @ ?w 1 @ ''-'' @ ?w 2 @ ''-'' @ ?w 3 @ [?d 0, ?d 1]), pos + 6)"
    by (simp add: lib_memorable_generate_def lib_memorable_init_def
        choice_each_nonempty [OF v] choice_each_nonempty [OF digits_nonempty]
        draws_4 draws_2)
  with w [of 0] w [of 1] w [of 2] w [of 3] d [of 0] d [of 1]
  have lib: "\<exists>w1 w2 w3 w4 d1 d2.
      lib_memorable_generate (lib_memorable_init ?c) g pos
        = (Inr (w1 @ ''-'' @ w2 @ ''-'' @ w3 @ ''-'' @ w4 @ [d1, d2]), pos + 6)
      \<and> w1 \<in> set [''Apple'', ''Banana'', ''Kiwi'']
      \<and> w2 \<in> set [''Apple'', ''Banana'', ''Kiwi'']
      \<and> w3 \<in> set [''Apple'', ''Banana'', ''Kiwi'']
      \<and> w4 \<in> set [''Apple'', ''Banana'', ''Kiwi'']
      \<and> d1 \<in> set digits \<and> d2 \<in> set digits"
    by blast
  have f: "dash_filtered_vocab (dash_memorable_init ?c) = ?v"
    by (simp add: dash_filtered_vocab_def dash_memorable_init_def)
  have dash: "dash_memorable_generate (dash_memorable_init ?c) g pos
        = (Inl (ValueError SampleLargerThanPopulation), pos)"
    unfolding dash_memorable_generate_def f
    by (simp add: sample_def dash_memorable_init_def)
  from lib f dash show ?thesis by blast
qed

text \<open>
  Where the claim as first stated fails: the dashboard's \<open>generate\<close> on that
  configuration returns no string.
\<close>

theorem memorable_fruit_counterexample:
  "dash_memorable_generate
        (dash_memorable_init
          \<lparr>no_of_words = 4, separator = ''-'', capitalization = True,
           vocabulary = [''apple'', ''banana'', ''kiwi''], suffix_length = 2\<rparr>) rng_count 0
        = (Inl (ValueError SampleLargerThanPopulation), 0)"
  by (simp add: dash_memorable_generate_def dash_filtered_vocab_def dash_memorable_init_def
      sample_def)

text \<open>
  Claim C6 fails on the library: its \<open>generate\<close> chooses from the whole vocabulary and
  has no length filter. With the vocabulary a, apple and one word asked for, the
  filtered vocabulary is apple alone, and the library returns "a" when the source
  selects index 0. (The dashboard samples from the filtered vocabulary only, by
  \<open>dash_memorable_words\<close>, and \<open>dash_filtered_vocab_spec\<close> says that this is the words of
  4 to 7 characters, or the whole vocabulary when there is none.)
\<close>

theorem lib_memorable_ignores_filter:
  "lib_memorable_generate
     (lib_memorable_init
       \<lparr>no_of_words = 1, separator = ''-'', capitalization = False,
        vocabulary = [''a'', ''apple''], suffix_length = 0\<rparr>) rng_zero 0
     = (Inr ''a'', 1)
   \<and> filter (\<lambda>w. 3 < length w \<and> length w < 8) [''a'', ''apple''] = [''apple'']
   \<and> dash_filtered_vocab
       \<lparr>no_of_words = 1, separator = ''-'', capitalization = False,
        vocabulary = [''a'', ''apple''], suffix_length = 0\<rparr> = [''apple'']"
  by code_simp

section \<open>Facts about the strength scorer\<close>

lemma py_round_of_int [simp]: "py_round (of_int n) = n"
  by (simp add: py_round_def)

lemma py_round_nonneg: "0 \<le> x \<Longrightarrow> 0 \<le> py_round x"
proof -
  assume "0 \<le> x"
  then have "0 \<le> \<lfloor>x\<rfloor>" by simp
  then show ?thesis by (auto simp: py_round_def Let_def)
qed

lemma spec_length_score_nonneg: "0 \<le> spec_length_score n"
  by (simp add: spec_length_score_def)

lemma spec_diversity_score_nonneg: "0 \<le> spec_diversity_score m pw"
  by (simp add: spec_diversity_score_def)

lemma spec_bonus_nonneg: "0 \<le> spec_bonus m pw"
  by (simp add: spec_bonus_def)

lemma length_score_eq:
  "(if int n > 4 then of_int (min (int n - 4) 16) / 16 * 40 else 0) = spec_length_score n"
proof (cases "n \<le> 4")
  case True
  then show ?thesis by (simp add: spec_length_score_def)
next
  case False
  then have "min (int n - 4) 16 = int (min (n - 4) 16)" by auto
  with False show ?thesis
    by (simp only: spec_length_score_def of_int_of_nat_eq) simp
qed

lemma classes_eq:
  "sum_list (map of_bool [list_ex (isupper m) pw, list_ex (islower m) pw,
       list_ex (isdigit m) pw, list_ex (\<lambda>c. \<not> isalnum m c) pw])
     = int (spec_classes m pw)"
  by (simp add: spec_classes_def spec_has_upper_def spec_has_lower_def spec_has_digit_def
      spec_has_symbol_def list_ex_iff)

lemma bonus_eq:
  "of_int (if list_ex (isdigit m) pw \<and> list_ex (\<lambda>c. \<not> isalnum m c) pw then 20
           else (if list_ex (isdigit m) pw \<or> list_ex (\<lambda>c. \<not> isalnum m c) pw then 10 else 0))
     = spec_bonus m pw"
  by (auto simp: spec_bonus_def spec_has_digit_def spec_has_symbol_def list_ex_iff)

lemma strength_examples:
  "compute_strength ascii_methods '''' = (0, ''Weak'')"
  "compute_strength ascii_methods ''aaaa'' = (10, ''Weak'')"
  "compute_strength ascii_methods ''aaaaa'' = (12, ''Weak'')"
  "compute_strength ascii_methods ''Tr0ub4dor&3'' = (78, ''Strong'')"
  by code_simp+

section \<open>Claim about the strength scorer\<close>

text \<open>
  Claim C2. For every input string, the scorer returns the score
  \<open>round (lengthScore + diversityScore + bonus)\<close> clamped to the interval from 0 to
  100, where \<open>lengthScore\<close> is 0 for a length of at most 4 and
  \<open>min (length - 4) 16 / 16 * 40\<close> otherwise, \<open>diversityScore\<close> is the number of
  satisfied class predicates (uppercase, lowercase, digit, symbol) divided by 4 and
  multiplied by 40, and \<open>bonus\<close> is 20 with both a digit and a symbol, 10 with exactly
  one of them and 0 otherwise; the label is Weak below 40, Medium below 60, Strong
  below 80 and Very Strong from 80 on. \<open>round\<close> is Python's, which rounds a tie to
  the even neighbour.
\<close>

theorem compute_strength_spec:
  "compute_strength m pw = (spec_score m pw, spec_label (spec_score m pw))"
proof (cases "pw = []")
  case True
  have "spec_score m [] = 0"
    by (simp add: spec_score_def spec_length_score_def spec_diversity_score_def
        spec_classes_def spec_bonus_def spec_has_upper_def spec_has_lower_def
        spec_has_digit_def spec_has_symbol_def clamp_def py_round_def)
  with True show ?thesis
    by (simp add: compute_strength_def spec_label_def)
next
  case False
  let ?x = "spec_length_score (length pw) + spec_diversity_score m pw + spec_bonus m pw"
  have "0 \<le> ?x"
    using spec_length_score_nonneg [of "length pw"] spec_diversity_score_nonneg [of m pw]
      spec_bonus_nonneg [of m pw] by linarith
  then have "0 \<le> py_round ?x" by (rule py_round_nonneg)
  then have clamp: "min 100 (py_round ?x) = spec_score m pw"
    by (simp add: spec_score_def clamp_def)
  have "compute_strength m pw =
          (min 100 (py_round ?x), spec_label (min 100 (py_round ?x)))"
    unfolding compute_strength_def Let_def length_score_eq classes_eq bonus_eq
      spec_diversity_score_def spec_label_def of_int_of_nat_eq
    by (simp only: False if_False)
  then show ?thesis by (simp only: clamp)
qed

end
